theory Spec2Isabelle
  imports Main "HOL-Library.Word"
begin

section \<open>The swarm node of ESP\_code.ino\<close>

text \<open>
  The sketch is one translation unit: global variables, two LED helpers, \<open>setup()\<close>
  and \<open>loop()\<close>. The globals become the record \<open>node\<close>; every call into the environment
  (\<open>millis\<close>, \<open>analogRead\<close>, the UDP socket) becomes a field of the record \<open>env\<close>
  that one iteration of \<open>loop\<close> reads; every call that acts on the environment
  (\<open>digitalWrite\<close>, \<open>Serial\<close>, \<open>udp.write\<close>, \<open>delay\<close>) becomes an \<open>effect\<close> in the
  list the iteration returns, in program order.

  C++ \<open>int\<close> is modelled as \<open>int\<close>: the sketch does arithmetic on sensor readings
  and calibration constants only, far from the 32-bit limits (signed overflow is undefined
  in C++). \<open>unsigned long\<close> is 32 bits on the ESP8266 and is modelled as \<open>32 word\<close>,
  so that \<open>millis() - lastReceivedTime\<close> wraps as it does on the device.
\<close>

subsection \<open>Pins, delimiters, constants\<close>

definition LED_INDICATOR :: nat where "LED_INDICATOR = 2"
definition LED_MASTER :: nat where "LED_MASTER = 16"

definition HIGH :: bool where "HIGH = True"
definition LOW :: bool where "LOW = False"

definition silentTime :: "32 word" where "silentTime = 200"

definition ESP_startBit :: string where "ESP_startBit = ''~~~''"
definition ESP_endBit :: string where "ESP_endBit = ''---''"
definition RPi_startBit :: string where "RPi_startBit = ''+++''"
definition RPi_endBit :: string where "RPi_endBit = ''***''"

definition Y_threshold :: int where "Y_threshold = 24"
definition Y_interval :: int where "Y_interval = 2010"
definition Z_threshold :: int where "Z_threshold = 1024"
definition Z_interval :: int where "Z_interval = 10"

subsection \<open>State, environment, effects, errors\<close>

record node =
  lastReceivedTime :: "32 word"
  swarmID :: int
  analogValue :: int
  isMaster :: bool
  role :: string
  readings :: "int list"
  slope :: int
  intercept :: int
  ledIndicatorState :: bool
  ledIndicatorPreviousMillis :: "32 word"
  ledMasterState :: bool
  ledMasterPreviousMillis :: "32 word"

text \<open>
  The globals as the static initialisers leave them. \<open>int readings[10] = {-1}\<close> is an
  aggregate initialisation with one initialiser: element 0 is \<open>-1\<close> and the nine
  remaining elements are value-initialised to 0. \<open>slope\<close> and \<open>intercept\<close> have no
  initialiser and are zero-initialised.
\<close>

definition init_node :: node where
  "init_node =
     \<lparr> lastReceivedTime = 0, swarmID = - 1, analogValue = 0, isMaster = True,
       role = ''Master'', readings = [- 1, 0, 0, 0, 0, 0, 0, 0, 0, 0],
       slope = 0, intercept = 0,
       ledIndicatorState = LOW, ledIndicatorPreviousMillis = 0,
       ledMasterState = LOW, ledMasterPreviousMillis = 0 \<rparr>"

text \<open>
  What one iteration of \<open>loop\<close> reads from outside, in the order of the reads.
  \<open>packet\<close> is the datagram \<open>udp.parsePacket\<close> finds (None: no datagram).
  \<open>stack_swarmID\<close> and \<open>stack_reading\<close> are the indeterminate contents of the locals
  \<open>receivedSwarmID\<close> and \<open>receivedReading\<close>, which the sketch declares without
  initialiser; they are what the locals hold when \<open>sscanf\<close> assigns nothing to them.
  \<open>printed_data\<close> is what the \<open>%s\<close> of line 180 prints: the call passes the
  \<open>String\<close> object \<open>data\<close> itself, not \<open>data.c_str()\<close>, so the bytes printed are
  not determined by the sketch and may differ from the payload.
\<close>

record env =
  millis_indicator :: "32 word"
  millis_master :: "32 word"
  packet :: "string option"
  printed_data :: string
  stack_swarmID :: int
  stack_reading :: int
  millis_received :: "32 word"
  millis_check :: "32 word"
  analogRead :: int
  millis_broadcast :: "32 word"

datatype effect =
    DigitalWrite nat bool
  | SerialOut string
  | UdpBroadcast string
  | Delay nat

datatype error =
    OutOfBounds int
  | BufferOverrun
  | DivisionByZero

subsection \<open>Library functions the sketch calls\<close>

text \<open>C++ integer division truncates towards zero.\<close>

definition cdiv :: "int \<Rightarrow> int \<Rightarrow> int" where
  "cdiv a b = (if (a < 0) = (b < 0) then \<bar>a\<bar> div \<bar>b\<bar> else - (\<bar>a\<bar> div \<bar>b\<bar>))"

text \<open>The Arduino \<open>String\<close> methods, on byte lists.\<close>

definition startsWith :: "string \<Rightarrow> string \<Rightarrow> bool" where
  "startsWith s p = (length p \<le> length s \<and> take (length p) s = p)"

definition endsWith :: "string \<Rightarrow> string \<Rightarrow> bool" where
  "endsWith s p = (length p \<le> length s \<and> drop (length s - length p) s = p)"

definition substring :: "string \<Rightarrow> nat \<Rightarrow> nat \<Rightarrow> string" where
  "substring s left right =
     (let l = min left right; r = min (max left right) (length s)
      in if length s \<le> l then [] else take (r - l) (drop l s))"

text \<open>\<open>String(int)\<close>: decimal digits, with a leading minus sign for a negative value.\<close>

fun utoa :: "nat \<Rightarrow> string" where
  "utoa n = (if n < 10 then [char_of (48 + n)]
             else utoa (n div 10) @ [char_of (48 + n mod 10)])"

declare utoa.simps [simp del]

definition String_int :: "int \<Rightarrow> string" where
  "String_int i = (if i < 0 then CHR ''-'' # utoa (nat (- i)) else utoa (nat i))"

text \<open>
  \<open>sscanf(data, "%d,%d", &a, &b)\<close>. A \<open>%d\<close> skips white space, takes an optional
  sign and then at least one decimal digit; the comma of the format must match the next
  byte exactly. The scan stops at the first directive that fails; the result lists the
  values assigned so far, in order (none, the first, or both). The value of a digit
  string is its mathematical value (a value outside the range of \<open>int\<close> is outside
  what the C standard defines).
\<close>

definition isspace :: "char \<Rightarrow> bool" where
  "isspace c = (c = CHR '' '' \<or> c = CHR 0x09 \<or> c = CHR 0x0A \<or> c = CHR 0x0B
                \<or> c = CHR 0x0C \<or> c = CHR 0x0D)"

definition isdigit :: "char \<Rightarrow> bool" where
  "isdigit c = (48 \<le> (of_char c :: nat) \<and> (of_char c :: nat) \<le> 57)"

fun digits_val :: "nat \<Rightarrow> string \<Rightarrow> nat" where
  "digits_val acc [] = acc"
| "digits_val acc (c # cs) = digits_val (10 * acc + (of_char c - 48)) cs"

definition scan_sign :: "string \<Rightarrow> bool \<times> string" where
  "scan_sign s = (case s of
       [] \<Rightarrow> (False, [])
     | c # r \<Rightarrow> if c = CHR ''-'' then (True, r)
                else if c = CHR ''+'' then (False, r) else (False, s))"

definition scan_int :: "string \<Rightarrow> (int \<times> string) option" where
  "scan_int s =
     (let (neg, s') = scan_sign (dropWhile isspace s);
          ds = takeWhile isdigit s'
      in if ds = [] then None
         else Some (if neg then - int (digits_val 0 ds) else int (digits_val 0 ds),
                    dropWhile isdigit s'))"

definition sscanf_d_comma_d :: "string \<Rightarrow> int list" where
  "sscanf_d_comma_d s =
     (case scan_int s of
        None \<Rightarrow> []
      | Some (a, r) \<Rightarrow>
          (case r of
             [] \<Rightarrow> [a]
           | c # r' \<Rightarrow>
               if c = CHR '','' then
                 (case scan_int r' of None \<Rightarrow> [a] | Some (b, _) \<Rightarrow> [a, b])
               else [a]))"

subsection \<open>Calibration and the LED helpers\<close>

text \<open>
  \<open>getSlopeIntercept\<close> writes through its two pointers; the model returns the pair.
  A zero divisor traps on the device.
\<close>

definition getSlopeIntercept :: "int \<Rightarrow> int \<Rightarrow> int \<Rightarrow> int \<Rightarrow> error + (int \<times> int)" where
  "getSlopeIntercept x1 y1 x2 y2 =
     (if x2 - x1 = 0 then Inl DivisionByZero
      else let a = cdiv (y2 - y1) (x2 - x1) in Inr (a, y1 - a * x1))"

text \<open>
  Both LED helpers start with \<open>int ledInterval = slope * analog_value + intercept\<close>;
  this is the interval the specification calls \<open>linearMap\<close>. The model computes it in
  the integers: it is the sketch's value as long as the product and the sum stay within
  the 32-bit \<open>int\<close>, and says nothing about the sketch where they do not (signed
  overflow). Every statement about it below either evaluates it at a reading where
  nothing overflows or carries that range as a hypothesis.
\<close>

definition ledInterval :: "node \<Rightarrow> int \<Rightarrow> int" where
  "ledInterval s analog_value = slope s * analog_value + intercept s"

text \<open>
  The comparison \<open>currentMillis - previousMillis >= ledInterval\<close> is between an
  \<open>unsigned long\<close> and an \<open>int\<close>: the interval is converted to unsigned.
\<close>

definition ledIndicatorFlash :: "node \<Rightarrow> int \<Rightarrow> 32 word \<Rightarrow> node \<times> effect list" where
  "ledIndicatorFlash s analog_value currentMillis =
     (if word_of_int (ledInterval s analog_value) \<le> currentMillis - ledIndicatorPreviousMillis s
      then (s\<lparr>ledIndicatorPreviousMillis := currentMillis,
               ledIndicatorState := \<not> ledIndicatorState s\<rparr>,
            [DigitalWrite LED_INDICATOR (\<not> ledIndicatorState s)])
      else (s, []))"

definition ledMasterFlash :: "node \<Rightarrow> int \<Rightarrow> 32 word \<Rightarrow> node \<times> effect list" where
  "ledMasterFlash s analog_value currentMillis =
     (if word_of_int (ledInterval s analog_value) \<le> currentMillis - ledMasterPreviousMillis s
      then (s\<lparr>ledMasterPreviousMillis := currentMillis,
               ledMasterState := \<not> ledMasterState s\<rparr>,
            [DigitalWrite LED_MASTER (\<not> ledMasterState s)])
      else (s, []))"

subsection \<open>Start-up\<close>

text \<open>
  The sketch's \<open>setup()\<close> (the name is a keyword here, hence \<open>setup_node\<close>) waits
  in a loop until the WiFi is connected: \<open>polls\<close> lists what the successive calls of
  \<open>WiFi.status()\<close> answer (True: connected), and the wait has no result when no poll
  answers connected. \<open>ip3\<close> is the last octet of the address. The state is all that
  is modelled of it; its pin and serial output is left out.
\<close>

fun waitForWiFi :: "bool list \<Rightarrow> nat option" where
  "waitForWiFi [] = None"
| "waitForWiFi (connected # polls) =
     (if connected then Some 0 else map_option Suc (waitForWiFi polls))"

definition setup_node :: "bool list \<Rightarrow> 8 word \<Rightarrow> node \<Rightarrow> (error + node) option" where
  "setup_node polls ip3 s =
     (case waitForWiFi polls of
        None \<Rightarrow> None
      | Some _ \<Rightarrow>
          Some (case getSlopeIntercept Y_threshold Y_interval Z_threshold Z_interval of
                  Inl e \<Rightarrow> Inl e
                | Inr (a, b) \<Rightarrow>
                    Inr (s\<lparr>swarmID := uint ip3 mod 10, slope := a, intercept := b\<rparr>)))"

subsection \<open>loop\<close>

text \<open>Lines 155 to 163: the two LED helpers.\<close>

definition flashPhase :: "node \<Rightarrow> env \<Rightarrow> node \<times> effect list" where
  "flashPhase s e =
     (let (s1, out1) = ledIndicatorFlash s (analogValue s) (millis_indicator e);
          (s2, out2) = (if isMaster s1 then ledMasterFlash s1 (analogValue s1) (millis_master e)
                        else (s1, [DigitalWrite LED_MASTER HIGH]))
      in (s2, out1 @ out2))"

text \<open>
  Lines 168 to 175: the datagram is read into \<open>char incomingPacket[255]\<close>, at most
  255 bytes of it, and terminated at index \<open>len\<close>; a datagram of 255 bytes or more
  puts the terminator at index 255, one past the buffer. The \<open>String\<close> built from the
  buffer ends at the first zero byte.
\<close>

definition packetString :: "string \<Rightarrow> error + string" where
  "packetString payload =
     (let len = min (length payload) 255
      in if 255 \<le> len then Inl BufferOverrun
         else Inr (takeWhile (\<lambda>c. c \<noteq> CHR 0x00) (take len payload)))"

text \<open>
  Lines 178 to 187: a frame between the ESP delimiters. The result of \<open>sscanf\<close> is not
  looked at: a local that \<open>sscanf\<close> did not assign keeps its indeterminate content.
  The store into \<open>readings\<close> is unchecked; an index outside the ten elements is the
  error \<open>OutOfBounds\<close>. The serial line is the prefix followed by whatever the
  \<open>%s\<close> prints for the \<open>String\<close> object (\<open>printed_data\<close>).
\<close>

definition peerBranch :: "node \<Rightarrow> env \<Rightarrow> string \<Rightarrow> error + node \<times> effect list" where
  "peerBranch s e packetStr =
     (if startsWith packetStr ESP_startBit \<and> endsWith packetStr ESP_endBit then
        (let data = substring packetStr (length ESP_startBit)
                      (length packetStr - length ESP_endBit);
             assigned = sscanf_d_comma_d data;
             receivedSwarmID = (case assigned of [] \<Rightarrow> stack_swarmID e | a # _ \<Rightarrow> a);
             receivedReading = (case assigned of [_, b] \<Rightarrow> b | _ \<Rightarrow> stack_reading e);
             out = [SerialOut (''Received packet: '' @ printed_data e @ [CHR 0x0A])]
         in if 0 \<le> receivedSwarmID \<and> receivedSwarmID < 10 then
              Inr (s\<lparr>readings := (readings s)[nat receivedSwarmID := receivedReading],
                     lastReceivedTime := millis_received e\<rparr>, out)
            else Inl (OutOfBounds receivedSwarmID))
      else Inr (s, []))"

text \<open>Lines 190 to 199: a frame between the RPi delimiters carrying the reset token.\<close>

definition resetBranch :: "node \<Rightarrow> string \<Rightarrow> node \<times> effect list" where
  "resetBranch s packetStr =
     (if startsWith packetStr RPi_startBit \<and> endsWith packetStr RPi_endBit then
        (let data = substring packetStr (length RPi_startBit)
                      (length packetStr - length RPi_endBit)
         in if data = ''RESET_REQUESTED'' then
              (s\<lparr>isMaster := True\<rparr>,
               [DigitalWrite LED_INDICATOR HIGH, DigitalWrite LED_MASTER HIGH,
                SerialOut (''RESET REQUESTED BY RPI5'' @ [CHR 0x0D, CHR 0x0A]),
                Delay 3000])
            else (s, []))
      else (s, []))"

text \<open>Lines 165 to 200: the receive block.\<close>

definition receivePhase :: "node \<Rightarrow> env \<Rightarrow> error + node \<times> effect list" where
  "receivePhase s e =
     (case packet e of
        None \<Rightarrow> Inr (s, [])
      | Some payload \<Rightarrow>
          if payload = [] then Inr (s, [])
          else (case packetString payload of
                  Inl err \<Rightarrow> Inl err
                | Inr packetStr \<Rightarrow>
                    (case peerBranch s e packetStr of
                       Inl err \<Rightarrow> Inl err
                     | Inr (s1, out1) \<Rightarrow>
                         (let (s2, out2) = resetBranch s1 packetStr
                          in Inr (s2, out1 @ out2)))))"

text \<open>
  Lines 214 to 221: the election loop, from index \<open>i\<close> on. \<open>break\<close> leaves the loop
  with \<open>isMaster = false\<close>; running off the end leaves it true.
\<close>

function determineMaster :: "int list \<Rightarrow> int \<Rightarrow> int \<Rightarrow> nat \<Rightarrow> bool" where
  "determineMaster rs sid av i =
     (if i < 10 then
        (if int i \<noteq> sid \<and> 0 \<le> rs ! i \<and> av < rs ! i then False
         else determineMaster rs sid av (Suc i))
      else True)"
  by pat_completeness auto
termination
  by (relation "measure (\<lambda>(rs, sid, av, i). 10 - i)") auto

declare determineMaster.simps [simp del]

text \<open>Lines 202 to 236: the sample, broadcast and election block.\<close>

definition peerFrame :: "int \<Rightarrow> int \<Rightarrow> string" where
  "peerFrame sid av = ESP_startBit @ String_int sid @ '','' @ String_int av @ ESP_endBit"

definition masterFrame :: "string \<Rightarrow> int \<Rightarrow> int \<Rightarrow> string" where
  "masterFrame r sid av =
     RPi_startBit @ r @ '','' @ String_int sid @ '','' @ String_int av @ RPi_endBit"

definition roleLine :: "string \<Rightarrow> int \<Rightarrow> effect list" where
  "roleLine r av =
     [SerialOut (''Current role: '' @ r @ '' (Reading: '' @ String_int av @ '')''
                 @ [CHR 0x0A]),
      SerialOut [CHR 0x0D, CHR 0x0A]]"

definition broadcastPhase :: "node \<Rightarrow> env \<Rightarrow> node \<times> effect list" where
  "broadcastPhase s e =
     (if silentTime < millis_check e - lastReceivedTime s then
        (let av = analogRead e;
             message = peerFrame (swarmID s) av;
             out1 = [SerialOut (''Broadcasting message: '' @ message @ [CHR 0x0A]),
                     UdpBroadcast message];
             s1 = s\<lparr>analogValue := av, lastReceivedTime := millis_broadcast e,
                    isMaster := determineMaster (readings s) (swarmID s) av 0\<rparr>
         in if isMaster s1 then
              (s1\<lparr>role := ''Master''\<rparr>,
               out1 @ [SerialOut (''Master to RPi: '' @ message @ [CHR 0x0A]),
                       UdpBroadcast (masterFrame ''Master'' (swarmID s) av)]
                    @ roleLine ''Master'' av)
            else (s1\<lparr>role := ''Slave''\<rparr>, out1 @ roleLine ''Slave'' av))
      else (s, []))"

definition loop :: "node \<Rightarrow> env \<Rightarrow> error + node \<times> effect list" where
  "loop s e =
     (let (s1, out1) = flashPhase s e
      in case receivePhase s1 e of
           Inl err \<Rightarrow> Inl err
         | Inr (s2, out2) \<Rightarrow>
             (let (s3, out3) = broadcastPhase s2 e in Inr (s3, out1 @ out2 @ out3)))"

subsection \<open>Observations and example inputs\<close>

text \<open>
  The datagram of this iteration reaches the assignment of line 185: it is not empty, fits
  the buffer and passes the test of line 178.
\<close>

definition peerFrameIn :: "env \<Rightarrow> bool" where
  "peerFrameIn e =
     (case packet e of
        None \<Rightarrow> False
      | Some payload \<Rightarrow>
          payload \<noteq> [] \<and>
          (case packetString payload of
             Inl _ \<Rightarrow> False
           | Inr p \<Rightarrow> startsWith p ESP_startBit \<and> endsWith p ESP_endBit))"

text \<open>
  Concrete nodes and environments for the examples: the node with address x.x.x.137 after
  start-up, an iteration that receives the peer frame of node 3 in the millisecond of
  the silence check (and whose serial line happens to show the payload), two nodes 3 and 5 that hold each other's reading, and an iteration
  that receives the reset frame.
\<close>

definition example_node :: node where
  "example_node = init_node\<lparr>swarmID := 7, slope := - 2, intercept := 2058\<rparr>"

definition example_env :: env where
  "example_env =
     \<lparr> millis_indicator = 1000, millis_master = 1000, packet = Some ''~~~3,512---'',
       printed_data = ''3,512'', stack_swarmID = 4, stack_reading = 777, millis_received = 1000,
       millis_check = 1000, analogRead = 300, millis_broadcast = 1000 \<rparr>"

definition node_a :: node where
  "node_a = example_node\<lparr>swarmID := 3, readings := [- 1, 0, 0, 0, 0, 100, 0, 0, 0, 0]\<rparr>"

definition node_b :: node where
  "node_b = example_node\<lparr>swarmID := 5, readings := [- 1, 0, 0, 512, 0, 0, 0, 0, 0, 0]\<rparr>"

definition env_a :: env where
  "env_a = example_env\<lparr>packet := None, millis_check := 1300, analogRead := 512\<rparr>"

definition env_b :: env where
  "env_b = example_env\<lparr>packet := None, millis_check := 1300, analogRead := 100\<rparr>"

definition reset_env :: env where
  "reset_env = example_env\<lparr>packet := Some ''+++RESET_REQUESTED***'', millis_check := 4000,
                            millis_broadcast := 4000\<rparr>"

text \<open>The two nodes as a swarm indexed by identifier, and the same swarm with a tie.\<close>

definition swarm_node :: "nat \<Rightarrow> node" where
  "swarm_node n = (if n = 3 then node_a else node_b)"

definition swarm_env :: "nat \<Rightarrow> env" where
  "swarm_env n = (if n = 3 then env_a else env_b)"

definition tied_node :: "nat \<Rightarrow> node" where
  "tied_node n =
     (if n = 3 then node_a\<lparr>readings := [- 1, 0, 0, 0, 0, 512, 0, 0, 0, 0]\<rparr> else node_b)"

definition tied_env :: "nat \<Rightarrow> env" where
  "tied_env n = (if n = 3 then env_a else env_b\<lparr>analogRead := 512\<rparr>)"

lemmas frame_defs = startsWith_def endsWith_def substring_def
  ESP_startBit_def ESP_endBit_def RPi_startBit_def RPi_endBit_def

lemmas example_defs = example_node_def example_env_def node_a_def node_b_def env_a_def
  env_b_def init_node_def

section \<open>Calibration\<close>

lemma getSlopeIntercept_default:
  "getSlopeIntercept Y_threshold Y_interval Z_threshold Z_interval = Inr (- 2, 2058)"
  by (simp add: getSlopeIntercept_def cdiv_def Y_threshold_def Y_interval_def
      Z_threshold_def Z_interval_def)

lemma setup_node_Inr:
  assumes "setup_node polls ip3 s = Some (Inr s')"
  shows "s' = s\<lparr>swarmID := uint ip3 mod 10, slope := - 2, intercept := 2058\<rparr>"
  using assms
  by (auto simp: setup_node_def getSlopeIntercept_default split: option.splits)

text \<open>
  Claim C6. With the calibration constants of the sketch (24, 2010, 1024, 10) and the
  truncating integer division of \<open>getSlopeIntercept\<close>, the interval that the LED helpers
  compute after start-up is exactly 2010 for the reading 24 and exactly 10 for the
  reading 1024.
\<close>

theorem linearMap_calibration_points:
  assumes "setup_node polls ip3 s = Some (Inr s')"
  shows "ledInterval s' 24 = 2010 \<and> ledInterval s' 1024 = 10"
  using setup_node_Inr [OF assms] by (simp add: ledInterval_def)

theorem linearMap_calibration_points_witness:
  "setup_node [False, True] 137 init_node
     = Some (Inr (init_node\<lparr>swarmID := 7, slope := - 2, intercept := 2058\<rparr>))
   \<and> ledInterval (init_node\<lparr>swarmID := 7, slope := - 2, intercept := 2058\<rparr>) 24 = 2010
   \<and> ledInterval (init_node\<lparr>swarmID := 7, slope := - 2, intercept := 2058\<rparr>) 1024 = 10"
proof -
  have run: "setup_node [False, True] 137 init_node
     = Some (Inr (init_node\<lparr>swarmID := 7, slope := - 2, intercept := 2058\<rparr>))"
    by (simp add: setup_node_def getSlopeIntercept_default)
  from linearMap_calibration_points [OF run] run show ?thesis by simp
qed

text \<open>
  Claim C7 says the interval is clamped to be non-negative for every integer reading.
  The sketch has no clamp: after start-up the interval of the reading 1030 is \<open>-2\<close>.
\<close>

theorem ledInterval_unclamped_counterexample:
  "setup_node [True] 137 init_node
     = Some (Inr (init_node\<lparr>swarmID := 7, slope := - 2, intercept := 2058\<rparr>))
   \<and> ledInterval (init_node\<lparr>swarmID := 7, slope := - 2, intercept := 2058\<rparr>) 1030 = - 2"
  by (simp add: setup_node_def getSlopeIntercept_default ledInterval_def)

text \<open>
  After start-up the product and the sum of the interval stay within the 32-bit \<open>int\<close>
  exactly for the readings from \<open>-1073740794\<close> to \<open>1073741824\<close>.
\<close>

lemma ledInterval_no_overflow_iff:
  assumes "setup_node polls ip3 s = Some (Inr s')"
  shows "(- 2147483648 \<le> slope s' * reading \<and> slope s' * reading \<le> 2147483647)
         \<and> (- 2147483648 \<le> slope s' * reading + intercept s'
              \<and> slope s' * reading + intercept s' \<le> 2147483647)
         \<longleftrightarrow> - 1073740794 \<le> reading \<and> reading \<le> 1073741824"
proof -
  have "slope s' = - 2" "intercept s' = 2058"
    using setup_node_Inr [OF assms] by simp_all
  then show ?thesis by simp arith
qed

text \<open>
  Claim C7, as amended. There is no clamp. For every reading from \<open>-1073740794\<close> to
  \<open>1073741824\<close>, which are exactly the readings for which neither the product
  \<open>slope * reading\<close> nor the sum leaves the range of a 32-bit \<open>int\<close>, the interval
  after start-up is \<open>2058 - 2 * reading\<close>; it is non-negative exactly for the readings
  up to 1029, which covers the range 0 to 1023 of the sensor and the calibration bound
  1024, and negative above.
\<close>

theorem ledInterval_nonneg_iff:
  assumes "setup_node polls ip3 s = Some (Inr s')"
    and "- 1073740794 \<le> reading" and "reading \<le> 1073741824"
  shows "(- 2147483648 \<le> slope s' * reading \<and> slope s' * reading \<le> 2147483647)
         \<and> (- 2147483648 \<le> ledInterval s' reading \<and> ledInterval s' reading \<le> 2147483647)
         \<and> ledInterval s' reading = 2058 - 2 * reading
         \<and> (0 \<le> ledInterval s' reading \<longleftrightarrow> reading \<le> 1029)"
proof -
  have s': "slope s' = - 2" "intercept s' = 2058"
    using setup_node_Inr [OF assms(1)] by simp_all
  have product: "- 2147483648 \<le> slope s' * reading \<and> slope s' * reading \<le> 2147483647"
    using assms(2,3) by (simp add: s')
  have total: "ledInterval s' reading = 2058 - 2 * reading"
    by (simp add: ledInterval_def s')
  have range: "- 2147483648 \<le> ledInterval s' reading \<and> ledInterval s' reading \<le> 2147483647"
    using assms(2,3) by (simp add: total)
  have sign: "0 \<le> ledInterval s' reading \<longleftrightarrow> reading \<le> 1029"
    unfolding total by arith
  from product range total sign show ?thesis by blast
qed

theorem ledInterval_nonneg_iff_witness:
  "setup_node [True] 137 init_node
     = Some (Inr (init_node\<lparr>swarmID := 7, slope := - 2, intercept := 2058\<rparr>))
   \<and> - 1073740794 \<le> (1023::int) \<and> (1023::int) \<le> 1073741824
   \<and> ledInterval (init_node\<lparr>swarmID := 7, slope := - 2, intercept := 2058\<rparr>) 1023 = 12
   \<and> 0 \<le> ledInterval (init_node\<lparr>swarmID := 7, slope := - 2, intercept := 2058\<rparr>) 1023"
proof -
  have run: "setup_node [True] 137 init_node
     = Some (Inr (init_node\<lparr>swarmID := 7, slope := - 2, intercept := 2058\<rparr>))"
    by (simp add: setup_node_def getSlopeIntercept_default)
  have lo: "- 1073740794 \<le> (1023::int)" and hi: "(1023::int) \<le> 1073741824" by simp_all
  from ledInterval_nonneg_iff [OF run lo hi] run show ?thesis by simp
qed

section \<open>The phases of one iteration\<close>

lemma packetString_short:
  "length payload < 255 \<Longrightarrow> CHR 0x00 \<notin> set payload \<Longrightarrow> packetString payload = Inr payload"
  by (auto simp: packetString_def takeWhile_eq_all_conv)

lemma flashPhase_fields:
  assumes "flashPhase s e = (s1, out1)"
  shows "readings s1 = readings s" "lastReceivedTime s1 = lastReceivedTime s"
    "isMaster s1 = isMaster s" "analogValue s1 = analogValue s" "swarmID s1 = swarmID s"
    "role s1 = role s"
  using assms
  by (auto simp: flashPhase_def ledIndicatorFlash_def ledMasterFlash_def Let_def
      split: if_splits prod.splits)

lemma flashPhase_out:
  assumes "flashPhase s e = (s1, out1)"
  shows "UdpBroadcast m \<notin> set out1" "Delay n \<notin> set out1"
  using assms
  by (auto simp: flashPhase_def ledIndicatorFlash_def ledMasterFlash_def Let_def
      split: if_splits prod.splits)

lemma peerBranch_cases:
  assumes "peerBranch s e p = Inr (s1, out1)"
  shows "UdpBroadcast m \<notin> set out1" "analogValue s1 = analogValue s" "isMaster s1 = isMaster s"
    "lastReceivedTime s1 =
       (if startsWith p ESP_startBit \<and> endsWith p ESP_endBit then millis_received e
        else lastReceivedTime s)"
  using assms by (auto simp: peerBranch_def Let_def split: if_splits)

lemma resetBranch_cases:
  assumes "resetBranch s p = (s1, out1)"
  shows "UdpBroadcast m \<notin> set out1" "analogValue s1 = analogValue s"
    "lastReceivedTime s1 = lastReceivedTime s" "readings s1 = readings s"
    "startsWith p ESP_startBit \<Longrightarrow> s1 = s"
  using assms by (auto simp: resetBranch_def frame_defs Let_def split: if_splits)

lemma receivePhase_InrE:
  assumes "receivePhase s e = Inr (s2, out2)"
  obtains (idle) "s2 = s" "out2 = []" "\<not> peerFrameIn e"
  | (frame) payload p s1 o1 o2 where "packet e = Some payload" "payload \<noteq> []"
      "packetString payload = Inr p" "peerBranch s e p = Inr (s1, o1)"
      "resetBranch s1 p = (s2, o2)" "out2 = o1 @ o2"
  using assms
  by (auto simp: receivePhase_def peerFrameIn_def
      split: option.splits if_splits sum.splits prod.splits)

lemma receivePhase_cases:
  assumes "receivePhase s e = Inr (s2, out2)"
  shows "UdpBroadcast m \<notin> set out2" "analogValue s2 = analogValue s"
    "lastReceivedTime s2 = (if peerFrameIn e then millis_received e else lastReceivedTime s)"
    "peerFrameIn e \<Longrightarrow> isMaster s2 = isMaster s"
proof -
  show "UdpBroadcast m \<notin> set out2"
    using assms
  proof (cases rule: receivePhase_InrE)
    case idle
    then show ?thesis by simp
  next
    case (frame payload p s1 o1 o2)
    then show ?thesis
      using peerBranch_cases(1) [OF frame(4)] resetBranch_cases(1) [OF frame(5)] by simp
  qed
  show "analogValue s2 = analogValue s"
    using assms
  proof (cases rule: receivePhase_InrE)
    case idle
    then show ?thesis by simp
  next
    case (frame payload p s1 o1 o2)
    then show ?thesis
      using peerBranch_cases(2) [OF frame(4)] resetBranch_cases(2) [OF frame(5)] by simp
  qed
  show "lastReceivedTime s2 = (if peerFrameIn e then millis_received e else lastReceivedTime s)"
    using assms
  proof (cases rule: receivePhase_InrE)
    case idle
    then show ?thesis by simp
  next
    case (frame payload p s1 o1 o2)
    have "peerFrameIn e \<longleftrightarrow> startsWith p ESP_startBit \<and> endsWith p ESP_endBit"
      using frame(1,2,3) by (simp add: peerFrameIn_def)
    then show ?thesis
      using peerBranch_cases(4) [OF frame(4)] resetBranch_cases(3) [OF frame(5)] by simp
  qed
  show "isMaster s2 = isMaster s" if pf: "peerFrameIn e"
    using assms
  proof (cases rule: receivePhase_InrE)
    case idle
    then show ?thesis by simp
  next
    case (frame payload p s1 o1 o2)
    have "startsWith p ESP_startBit"
      using frame(1,2,3) pf by (simp add: peerFrameIn_def)
    then have "s2 = s1" using resetBranch_cases(5) [OF frame(5)] by simp
    then show ?thesis using peerBranch_cases(3) [OF frame(4)] by simp
  qed
qed

lemma receivePhase_length:
  assumes "receivePhase s e = Inr (s2, out2)"
  shows "length (readings s2) = length (readings s)"
  using assms
proof (cases rule: receivePhase_InrE)
  case idle
  then show ?thesis by simp
next
  case (frame payload p s1 o1 o2)
  have "length (readings s1) = length (readings s)"
    using frame(4) by (auto simp: peerBranch_def Let_def split: if_splits)
  then show ?thesis using resetBranch_cases(4) [OF frame(5)] by simp
qed

lemma receivePhase_readings:
  assumes "receivePhase s e = Inr (s2, out2)" "\<not> peerFrameIn e"
  shows "readings s2 = readings s"
  using assms(1)
proof (cases rule: receivePhase_InrE)
  case idle
  then show ?thesis by simp
next
  case (frame payload p s1 o1 o2)
  have "\<not> (startsWith p ESP_startBit \<and> endsWith p ESP_endBit)"
    using frame(1,2,3) assms(2) by (simp add: peerFrameIn_def)
  then have "s1 = s" using frame(4) by (auto simp: peerBranch_def)
  then show ?thesis using resetBranch_cases(4) [OF frame(5)] by simp
qed

lemma broadcastPhase_readings:
  "broadcastPhase s e = (s', out) \<Longrightarrow> readings s' = readings s"
  by (auto simp: broadcastPhase_def Let_def split: if_splits)

lemma broadcastPhase_no_delay:
  "broadcastPhase s e = (s', out) \<Longrightarrow> Delay n \<notin> set out"
  by (auto simp: broadcastPhase_def Let_def roleLine_def split: if_splits)

lemma broadcastPhase_runs:
  assumes "broadcastPhase s e = (s', out)"
  shows "(\<exists>m. UdpBroadcast m \<in> set out) \<longleftrightarrow> silentTime < millis_check e - lastReceivedTime s"
  using assms by (auto simp: broadcastPhase_def Let_def roleLine_def split: if_splits)

lemma broadcastPhase_idle:
  "\<not> silentTime < millis_check e - lastReceivedTime s \<Longrightarrow> broadcastPhase s e = (s, [])"
  by (simp add: broadcastPhase_def)

lemma broadcastPhase_isMaster:
  assumes "silentTime < millis_check e - lastReceivedTime s"
  shows "isMaster (fst (broadcastPhase s e))
           = determineMaster (readings s) (swarmID s) (analogRead e) 0"
  using assms by (simp add: broadcastPhase_def Let_def)

lemma broadcastPhase_cycle:
  assumes "broadcastPhase s e = (s', out)"
    and "silentTime < millis_check e - lastReceivedTime s"
  shows "UdpBroadcast (peerFrame (swarmID s) (analogRead e)) \<in> set out"
    and "analogValue s' = analogRead e"
    and "isMaster s' = determineMaster (readings s) (swarmID s) (analogRead e) 0"
    and "lastReceivedTime s' = millis_broadcast e"
  using assms by (auto simp: broadcastPhase_def Let_def split: if_splits)

lemma receivePhase_swarmID:
  assumes "receivePhase s e = Inr (s2, out2)"
  shows "swarmID s2 = swarmID s"
  using assms
proof (cases rule: receivePhase_InrE)
  case idle
  then show ?thesis by simp
next
  case (frame payload p s1 o1 o2)
  have "swarmID s1 = swarmID s"
    using frame(4) by (auto simp: peerBranch_def Let_def split: if_splits)
  moreover have "swarmID s2 = swarmID s1"
    using frame(5) by (auto simp: resetBranch_def Let_def split: if_splits)
  ultimately show ?thesis by simp
qed

text \<open>
  The table keeps its ten elements, and no iteration changes it unless it receives a peer
  frame; start-up does not touch it either.
\<close>

lemma loop_readings:
  assumes "loop s e = Inr (s', out)"
  shows "length (readings s') = length (readings s)"
    and "\<not> peerFrameIn e \<Longrightarrow> readings s' = readings s"
proof -
  obtain s1 out1 where f: "flashPhase s e = (s1, out1)" by (cases "flashPhase s e")
  obtain s2 out2 where r: "receivePhase s1 e = Inr (s2, out2)"
    using assms f by (auto simp: loop_def split: sum.splits)
  obtain s3 out3 where b: "broadcastPhase s2 e = (s3, out3)" by (cases "broadcastPhase s2 e")
  have l: "s' = s3" using assms f r b by (auto simp: loop_def)
  show "length (readings s') = length (readings s)"
    using l broadcastPhase_readings [OF b] receivePhase_length [OF r] flashPhase_fields(1) [OF f]
    by simp
  show "readings s' = readings s" if "\<not> peerFrameIn e"
    using l broadcastPhase_readings [OF b] receivePhase_readings [OF r that]
      flashPhase_fields(1) [OF f]
    by simp
qed

lemma setup_node_readings:
  "setup_node polls ip3 s = Some (Inr s') \<Longrightarrow> readings s' = readings s"
  using setup_node_Inr by fastforce

lemma loop_idle_returns:
  "packet e = None \<Longrightarrow> \<exists>s' out. loop s e = Inr (s', out)"
  by (simp add: loop_def receivePhase_def split: prod.splits)

section \<open>The reading table at start-up\<close>

text \<open>
  Claim C9 says every entry of the table holds the sentinel \<open>-1\<close> at start-up. The
  initialiser \<open>{-1}\<close> sets element 0 only: the entries 1 to 9 start at 0, a value
  that the election's test \<open>readings[i] >= 0\<close> takes for a known reading. Start-up
  leaves the table as it is, and so does a first iteration that receives no datagram and
  runs the cycle.
\<close>

theorem readings_initial_values:
  "readings init_node = [- 1, 0, 0, 0, 0, 0, 0, 0, 0, 0]
   \<and> readings init_node ! 1 = 0 \<and> readings init_node ! 1 \<noteq> - 1
   \<and> 0 \<le> readings init_node ! 1
   \<and> setup_node [True] 137 init_node = Some (Inr example_node)
   \<and> packet env_a = None
   \<and> (\<exists>s' out. loop example_node env_a = Inr (s', out)
         \<and> readings s' = [- 1, 0, 0, 0, 0, 0, 0, 0, 0, 0])"
proof -
  have init: "readings init_node = [- 1, 0, 0, 0, 0, 0, 0, 0, 0, 0]"
    by (simp add: init_node_def)
  have start: "setup_node [True] 137 init_node = Some (Inr example_node)"
    by (simp add: setup_node_def getSlopeIntercept_default example_node_def)
  have idle: "packet env_a = None" "\<not> peerFrameIn env_a"
    by (simp_all add: peerFrameIn_def env_a_def)
  obtain s' out where run: "loop example_node env_a = Inr (s', out)"
    using loop_idle_returns [OF idle(1)] by blast
  have "readings s' = readings init_node"
    using loop_readings(2) [OF run idle(2)] setup_node_readings [OF start] by simp
  with init start idle(1) run show ?thesis by simp
qed

section \<open>The election\<close>

lemma determineMaster_from:
  "determineMaster rs sid av i \<longleftrightarrow>
     \<not> (\<exists>j. i \<le> j \<and> j < 10 \<and> int j \<noteq> sid \<and> 0 \<le> rs ! j \<and> av < rs ! j)"
proof (induction rs sid av i rule: determineMaster.induct)
  case (1 rs sid av i)
  show ?case
  proof (cases "i < 10")
    case False
    then show ?thesis by (simp add: determineMaster.simps [of rs sid av i])
  next
    case True
    show ?thesis
    proof (cases "int i \<noteq> sid \<and> 0 \<le> rs ! i \<and> av < rs ! i")
      case hit: True
      with True show ?thesis
        by (auto simp: determineMaster.simps [of rs sid av i])
    next
      case miss: False
      have "determineMaster rs sid av i = determineMaster rs sid av (Suc i)"
        using True miss by (auto simp: determineMaster.simps [of rs sid av i])
      also have "\<dots> \<longleftrightarrow>
          \<not> (\<exists>j. Suc i \<le> j \<and> j < 10 \<and> int j \<noteq> sid \<and> 0 \<le> rs ! j \<and> av < rs ! j)"
        using "1.IH" True miss by simp
      also have "\<dots> \<longleftrightarrow>
          \<not> (\<exists>j. i \<le> j \<and> j < 10 \<and> int j \<noteq> sid \<and> 0 \<le> rs ! j \<and> av < rs ! j)"
        using miss by (metis Suc_leD Suc_leI le_neq_implies_less)
      finally show ?thesis .
    qed
  qed
qed

lemma determineMaster_iff:
  "determineMaster rs sid av 0 \<longleftrightarrow>
     \<not> (\<exists>j<10. int j \<noteq> sid \<and> 0 \<le> rs ! j \<and> av < rs ! j)"
  by (simp add: determineMaster_from)

lemma less_10_cases:
  "i < (10::nat) \<Longrightarrow>
     i = 0 \<or> i = 1 \<or> i = 2 \<or> i = 3 \<or> i = 4 \<or> i = 5 \<or> i = 6 \<or> i = 7 \<or> i = 8 \<or> i = 9"
  by arith

text \<open>
  Claim C1. In an iteration that runs the cycle, the node ends with \<open>isMaster\<close> true
  if and only if no table index other than its own \<open>swarmID\<close> holds a known reading
  strictly greater than the reading just sampled. Known is what passes the test
  \<open>readings[i] >= 0\<close> of the sketch; for a sampled reading that is not negative, as the
  sensor's are, this is the same as being different from the sentinel \<open>-1\<close>. Entries
  that are unknown or not greater, ties among them, never disqualify the node.

  For a swarm \<open>N\<close> of nodes with identifiers below 10, each holding the reading of
  every other node of the swarm and no competing value at the other indices: a node is
  master if and only if no node of the swarm has a higher reading. So the node with the
  strictly highest reading is master and every other node is not, and nodes tied at the
  highest reading are all master.
\<close>

theorem election_rule:
  assumes "silentTime < millis_check e - lastReceivedTime s"
  shows "(isMaster (fst (broadcastPhase s e)) \<longleftrightarrow>
            \<not> (\<exists>i<10. int i \<noteq> swarmID s \<and> 0 \<le> readings s ! i
                        \<and> analogRead e < readings s ! i))
       \<and> (0 \<le> analogRead e \<longrightarrow>
            (isMaster (fst (broadcastPhase s e)) \<longleftrightarrow>
               \<not> (\<exists>i<10. int i \<noteq> swarmID s \<and> readings s ! i \<noteq> - 1
                           \<and> analogRead e < readings s ! i)))
       \<and> ((\<forall>i<10. int i \<noteq> swarmID s \<longrightarrow>
               readings s ! i < 0 \<or> readings s ! i \<le> analogRead e)
            \<longrightarrow> isMaster (fst (broadcastPhase s e)))
       \<and> ((\<forall>n\<in>N. n < 10 \<and> swarmID (st n) = int n \<and> 0 \<le> analogRead (en n)
                  \<and> silentTime < millis_check (en n) - lastReceivedTime (st n)
                  \<and> (\<forall>j\<in>N. j \<noteq> n \<longrightarrow> readings (st n) ! j = analogRead (en j))
                  \<and> (\<forall>j<10. j \<notin> N \<longrightarrow>
                        readings (st n) ! j < 0 \<or> readings (st n) ! j \<le> analogRead (en n)))
            \<longrightarrow> (\<forall>n\<in>N. isMaster (fst (broadcastPhase (st n) (en n))) \<longleftrightarrow>
                          (\<forall>j\<in>N. analogRead (en j) \<le> analogRead (en n))))"
proof -
  have rule: "isMaster (fst (broadcastPhase s' e')) \<longleftrightarrow>
            \<not> (\<exists>i<10. int i \<noteq> swarmID s' \<and> 0 \<le> readings s' ! i
                        \<and> analogRead e' < readings s' ! i)"
    if "silentTime < millis_check e' - lastReceivedTime s'" for s' e'
    using broadcastPhase_isMaster [OF that] by (simp add: determineMaster_iff)
  have first: "isMaster (fst (broadcastPhase s e)) \<longleftrightarrow>
            \<not> (\<exists>i<10. int i \<noteq> swarmID s \<and> 0 \<le> readings s ! i
                        \<and> analogRead e < readings s ! i)"
    using rule [OF assms] .
  have sentinel: "isMaster (fst (broadcastPhase s e)) \<longleftrightarrow>
               \<not> (\<exists>i<10. int i \<noteq> swarmID s \<and> readings s ! i \<noteq> - 1
                           \<and> analogRead e < readings s ! i)"
    if "0 \<le> analogRead e"
    unfolding first using that by (intro arg_cong [where f = Not] ex_cong1) auto
  have unknown: "isMaster (fst (broadcastPhase s e))"
    if "\<forall>i<10. int i \<noteq> swarmID s \<longrightarrow>
               readings s ! i < 0 \<or> readings s ! i \<le> analogRead e"
    unfolding first using that by force
  have swarm: "isMaster (fst (broadcastPhase (st n) (en n))) \<longleftrightarrow>
                          (\<forall>j\<in>N. analogRead (en j) \<le> analogRead (en n))"
    if h: "\<forall>n\<in>N. n < 10 \<and> swarmID (st n) = int n \<and> 0 \<le> analogRead (en n)
                  \<and> silentTime < millis_check (en n) - lastReceivedTime (st n)
                  \<and> (\<forall>j\<in>N. j \<noteq> n \<longrightarrow> readings (st n) ! j = analogRead (en j))
                  \<and> (\<forall>j<10. j \<notin> N \<longrightarrow>
                        readings (st n) ! j < 0 \<or> readings (st n) ! j \<le> analogRead (en n))"
      and n: "n \<in> N" for n
  proof -
    have run: "silentTime < millis_check (en n) - lastReceivedTime (st n)"
      and sid: "swarmID (st n) = int n"
      using h n by blast+
    have seen: "readings (st n) ! j = analogRead (en j)" if "j \<in> N" "j \<noteq> n" for j
      using h n that by blast
    have unseen: "readings (st n) ! j < 0 \<or> readings (st n) ! j \<le> analogRead (en n)"
      if "j < 10" "j \<notin> N" for j
      using h n that by blast
    have range: "j < 10 \<and> 0 \<le> analogRead (en j)" if "j \<in> N" for j
      using h that by blast
    show ?thesis
    proof
      assume m: "isMaster (fst (broadcastPhase (st n) (en n)))"
      show "\<forall>j\<in>N. analogRead (en j) \<le> analogRead (en n)"
      proof
        fix j assume j: "j \<in> N"
        show "analogRead (en j) \<le> analogRead (en n)"
        proof (cases "j = n")
          case True
          then show ?thesis by simp
        next
          case False
          have "\<not> (j < 10 \<and> int j \<noteq> swarmID (st n) \<and> 0 \<le> readings (st n) ! j
                    \<and> analogRead (en n) < readings (st n) ! j)"
            using m rule [OF run] by blast
          then show ?thesis
            using False sid range [OF j] seen [OF j False] by simp
        qed
      qed
    next
      assume top: "\<forall>j\<in>N. analogRead (en j) \<le> analogRead (en n)"
      have "\<not> (0 \<le> readings (st n) ! i \<and> analogRead (en n) < readings (st n) ! i)"
        if i: "i < 10" "int i \<noteq> swarmID (st n)" for i
      proof (cases "i \<in> N")
        case True
        then show ?thesis using seen [of i] top i(2) sid by force
      next
        case False
        then show ?thesis using unseen [OF i(1)] by force
      qed
      then show "isMaster (fst (broadcastPhase (st n) (en n)))"
        using rule [OF run] by blast
    qed
  qed
  from first sentinel unknown swarm show ?thesis by blast
qed

text \<open>
  Nodes 3 and 5 with the readings 512 and 100: node 3 is master, node 5 is not. With 512
  on both sides, both are master.
\<close>

theorem election_rule_witness:
  "silentTime < millis_check env_a - lastReceivedTime node_a
   \<and> 0 \<le> analogRead env_a
   \<and> readings node_a ! 5 = analogRead env_b \<and> readings node_b ! 3 = analogRead env_a
   \<and> analogRead env_b < analogRead env_a
   \<and> isMaster (fst (broadcastPhase node_a env_a))
   \<and> \<not> isMaster (fst (broadcastPhase node_b env_b))
   \<and> analogRead (tied_env 3) = analogRead (tied_env 5)
   \<and> isMaster (fst (broadcastPhase (tied_node 3) (tied_env 3)))
   \<and> isMaster (fst (broadcastPhase (tied_node 5) (tied_env 5)))"
proof -
  have run: "silentTime < millis_check env_a - lastReceivedTime node_a"
    by (simp add: example_defs silentTime_def)
  have vals: "0 \<le> analogRead env_a" "readings node_a ! 5 = analogRead env_b"
    "readings node_b ! 3 = analogRead env_a" "analogRead env_b < analogRead env_a"
    "analogRead (tied_env 3) = analogRead (tied_env 5)"
    by (simp_all add: example_defs tied_env_def)
  have strict: "\<forall>n\<in>{3, 5}. n < 10 \<and> swarmID (swarm_node n) = int n
        \<and> 0 \<le> analogRead (swarm_env n)
        \<and> silentTime < millis_check (swarm_env n) - lastReceivedTime (swarm_node n)
        \<and> (\<forall>j\<in>{3, 5}. j \<noteq> n \<longrightarrow> readings (swarm_node n) ! j = analogRead (swarm_env j))
        \<and> (\<forall>j<10. j \<notin> {3, 5} \<longrightarrow>
              readings (swarm_node n) ! j < 0
              \<or> readings (swarm_node n) ! j \<le> analogRead (swarm_env n))"
    by (auto simp: swarm_node_def swarm_env_def example_defs silentTime_def
        dest!: less_10_cases)
  have tie: "\<forall>n\<in>{3, 5}. n < 10 \<and> swarmID (tied_node n) = int n
        \<and> 0 \<le> analogRead (tied_env n)
        \<and> silentTime < millis_check (tied_env n) - lastReceivedTime (tied_node n)
        \<and> (\<forall>j\<in>{3, 5}. j \<noteq> n \<longrightarrow> readings (tied_node n) ! j = analogRead (tied_env j))
        \<and> (\<forall>j<10. j \<notin> {3, 5} \<longrightarrow>
              readings (tied_node n) ! j < 0
              \<or> readings (tied_node n) ! j \<le> analogRead (tied_env n))"
    by (auto simp: tied_node_def tied_env_def example_defs silentTime_def
        dest!: less_10_cases)
  have s: "\<forall>n\<in>{3, 5}. isMaster (fst (broadcastPhase (swarm_node n) (swarm_env n))) \<longleftrightarrow>
              (\<forall>j\<in>{3, 5}. analogRead (swarm_env j) \<le> analogRead (swarm_env n))"
    using election_rule [OF run, of "{3, 5}" swarm_node swarm_env] strict by blast
  have t: "\<forall>n\<in>{3, 5}. isMaster (fst (broadcastPhase (tied_node n) (tied_env n))) \<longleftrightarrow>
              (\<forall>j\<in>{3, 5}. analogRead (tied_env j) \<le> analogRead (tied_env n))"
    using election_rule [OF run, of "{3, 5}" tied_node tied_env] tie by blast
  have "isMaster (fst (broadcastPhase node_a env_a))
        \<and> \<not> isMaster (fst (broadcastPhase node_b env_b))"
    using s by (simp add: swarm_node_def swarm_env_def example_defs)
  moreover have "isMaster (fst (broadcastPhase (tied_node 3) (tied_env 3)))
        \<and> isMaster (fst (broadcastPhase (tied_node 5) (tied_env 5)))"
    using t by (simp add: tied_env_def example_defs)
  ultimately show ?thesis using run vals by blast
qed

section \<open>Receiving frames\<close>

text \<open>
  A datagram that fits the buffer and matches neither delimiter pair changes nothing and
  prints nothing; a datagram of 255 bytes or more overruns the buffer.
\<close>

lemma receivePhase_unframed:
  assumes "packet e = Some payload" "packetString payload = Inr p"
    and "\<not> (startsWith p ESP_startBit \<and> endsWith p ESP_endBit)"
    and "\<not> (startsWith p RPi_startBit \<and> endsWith p RPi_endBit)"
  shows "receivePhase s e = Inr (s, [])"
  using assms by (auto simp: receivePhase_def peerBranch_def resetBranch_def)

lemma receivePhase_long_datagram:
  assumes "packet e = Some payload" "255 \<le> length payload"
  shows "receivePhase s e = Inl BufferOverrun"
  using assms by (auto simp: receivePhase_def packetString_def)

text \<open>
  Claim C2 says a frame whose payload does not parse is dropped with no change of state.
  The frame \<open>~~~abc---\<close> passes the delimiter test; \<open>sscanf\<close> assigns nothing, its
  result is not looked at, and the assignment of line 185 runs with the indeterminate
  contents of the two locals: the table is written at that index (or outside the table),
  and \<open>lastReceivedTime\<close> is set, which postpones the node's next broadcast.
\<close>

theorem malformed_payload_changes_state:
  "receivePhase s (e\<lparr>packet := Some ''~~~abc---''\<rparr>) =
     (if 0 \<le> stack_swarmID e \<and> stack_swarmID e < 10 then
        Inr (s\<lparr>readings := (readings s)[nat (stack_swarmID e) := stack_reading e],
               lastReceivedTime := millis_received e\<rparr>,
             [SerialOut (''Received packet: '' @ printed_data e @ [CHR 0x0A])])
      else Inl (OutOfBounds (stack_swarmID e)))"
  by (simp add: receivePhase_def packetString_def peerBranch_def resetBranch_def frame_defs
      sscanf_d_comma_d_def scan_int_def scan_sign_def isspace_def isdigit_def Let_def)

text \<open>
  Claim C10 says the index parsed from a well-formed peer frame always lies in 0 to 9.
  The frame \<open>~~~10,5---\<close> is well-formed, parses to the index 10, and the store is
  outside the table.
\<close>

theorem swarmID_ten_out_of_bounds:
  "receivePhase s (e\<lparr>packet := Some ''~~~10,5---''\<rparr>) = Inl (OutOfBounds 10)"
  by (simp add: receivePhase_def packetString_def peerBranch_def resetBranch_def frame_defs
      sscanf_d_comma_d_def scan_int_def scan_sign_def isspace_def isdigit_def Let_def)

section \<open>Encoding and parsing a peer frame\<close>

lemma isdigit_char_of: "k < 10 \<Longrightarrow> isdigit (char_of (48 + (k::nat)))"
  by (simp add: isdigit_def)

lemma utoa_digits: "c \<in> set (utoa n) \<Longrightarrow> isdigit c"
proof (induction n arbitrary: c rule: utoa.induct)
  case (1 n)
  show ?case
  proof (cases "n < 10")
    case True
    with "1.prems" show ?thesis by (simp add: utoa.simps [of n] isdigit_char_of)
  next
    case False
    with "1.prems" have "c \<in> set (utoa (n div 10)) \<or> c = char_of (48 + n mod 10)"
      by (auto simp: utoa.simps [of n])
    then show ?thesis using "1.IH" [OF False] isdigit_char_of [of "n mod 10"] by auto
  qed
qed

lemma utoa_nonempty: "utoa n \<noteq> []"
  by (simp add: utoa.simps [of n])

lemma digits_val_snoc:
  "digits_val acc (cs @ [c]) = 10 * digits_val acc cs + (of_char c - 48)"
  by (induction cs arbitrary: acc) simp_all

lemma digits_val_utoa: "digits_val 0 (utoa n) = n"
proof (induction n rule: utoa.induct)
  case (1 n)
  show ?case
  proof (cases "n < 10")
    case True
    then show ?thesis by (simp add: utoa.simps [of n])
  next
    case False
    have "digits_val 0 (utoa n) = 10 * digits_val 0 (utoa (n div 10)) + n mod 10"
      using False by (simp add: utoa.simps [of n] digits_val_snoc)
    then show ?thesis using "1.IH" [OF False] by simp
  qed
qed

lemma utoa_length: "0 < k \<Longrightarrow> n < 10 ^ k \<Longrightarrow> length (utoa n) \<le> k"
proof (induction n arbitrary: k rule: utoa.induct)
  case (1 n)
  show ?case
  proof (cases "n < 10")
    case True
    then show ?thesis using "1.prems" by (simp add: utoa.simps [of n])
  next
    case False
    then obtain k' where k: "k = Suc k'" "0 < k'"
      using "1.prems" by (cases k; cases "k - 1") auto
    have "n div 10 < 10 ^ k'"
      using "1.prems"(2) k(1) by (simp add: less_mult_imp_div_less mult.commute)
    then have "length (utoa (n div 10)) \<le> k'"
      using "1.IH" [OF False k(2)] by simp
    then show ?thesis using False k(1) by (simp add: utoa.simps [of n])
  qed
qed

lemma isdigit_plain: "isdigit c \<Longrightarrow> \<not> isspace c \<and> c \<noteq> CHR ''-'' \<and> c \<noteq> CHR ''+''"
  by (auto simp: isdigit_def isspace_def)

lemma scan_digits:
  assumes "rest = [] \<or> \<not> isdigit (hd rest)"
  shows "takeWhile isdigit (utoa n @ rest) = utoa n"
    and "dropWhile isdigit (utoa n @ rest) = rest"
proof -
  have r: "takeWhile isdigit rest = []" "dropWhile isdigit rest = rest"
    using assms by (cases rest; simp)+
  show "takeWhile isdigit (utoa n @ rest) = utoa n"
    using r by (simp add: takeWhile_append2 utoa_digits)
  show "dropWhile isdigit (utoa n @ rest) = rest"
    using r by (simp add: dropWhile_append2 utoa_digits)
qed

lemma utoa_head: "\<exists>c cs. utoa n = c # cs \<and> isdigit c"
  using utoa_nonempty [of n] utoa_digits [of _ n] by (cases "utoa n") auto

lemma scan_int_utoa:
  assumes "rest = [] \<or> \<not> isdigit (hd rest)"
  shows "scan_int (utoa n @ rest) = Some (int n, rest)"
proof -
  obtain c cs where u: "utoa n = c # cs" "isdigit c" using utoa_head by blast
  have "dropWhile isspace (utoa n @ rest) = utoa n @ rest"
    using u isdigit_plain by simp
  moreover have "scan_sign (utoa n @ rest) = (False, utoa n @ rest)"
    using u isdigit_plain by (simp add: scan_sign_def)
  ultimately show ?thesis
    using scan_digits [OF assms, of n] utoa_nonempty [of n]
    by (simp add: scan_int_def digits_val_utoa)
qed

lemma scan_int_minus_utoa:
  assumes "rest = [] \<or> \<not> isdigit (hd rest)"
  shows "scan_int (CHR ''-'' # utoa n @ rest) = Some (- int n, rest)"
proof -
  have "dropWhile isspace (CHR ''-'' # utoa n @ rest) = CHR ''-'' # utoa n @ rest"
    by (simp add: isspace_def)
  moreover have "scan_sign (CHR ''-'' # utoa n @ rest) = (True, utoa n @ rest)"
    by (simp add: scan_sign_def)
  ultimately show ?thesis
    using scan_digits [OF assms, of n] utoa_nonempty [of n]
    by (simp add: scan_int_def digits_val_utoa)
qed

lemma scan_int_String_int:
  assumes "rest = [] \<or> \<not> isdigit (hd rest)"
  shows "scan_int (String_int i @ rest) = Some (i, rest)"
proof (cases "i < 0")
  case True
  then show ?thesis using scan_int_minus_utoa [OF assms, of "nat (- i)"]
    by (simp add: String_int_def)
next
  case False
  then show ?thesis using scan_int_utoa [OF assms, of "nat i"]
    by (simp add: String_int_def)
qed

lemma sscanf_String_int:
  "sscanf_d_comma_d (String_int a @ CHR '','' # String_int b) = [a, b]"
proof -
  have 1: "scan_int (String_int a @ (CHR '','' # String_int b))
             = Some (a, CHR '','' # String_int b)"
    by (rule scan_int_String_int) (simp add: isdigit_def)
  have 2: "scan_int (String_int b) = Some (b, [])"
    using scan_int_String_int [of "[]" b] by simp
  show ?thesis by (simp add: sscanf_d_comma_d_def 1 2)
qed

lemma substring_between:
  "substring (ESP_startBit @ x @ ESP_endBit) (length ESP_startBit)
     (length (ESP_startBit @ x @ ESP_endBit) - length ESP_endBit) = x"
  by (simp add: substring_def ESP_startBit_def ESP_endBit_def)

lemma delimiters_between:
  "startsWith (ESP_startBit @ x @ ESP_endBit) ESP_startBit"
  "endsWith (ESP_startBit @ x @ ESP_endBit) ESP_endBit"
  by (simp_all add: startsWith_def endsWith_def ESP_startBit_def ESP_endBit_def)

lemma peerFrame_payload:
  "substring (peerFrame sid av) (length ESP_startBit)
           (length (peerFrame sid av) - length ESP_endBit)
         = String_int sid @ '','' @ String_int av"
  using substring_between [of "String_int sid @ '','' @ String_int av"]
  by (simp add: peerFrame_def)

text \<open>
  What the receiver does with the frame a node sends for \<open>(sid, av)\<close>: the two numbers
  come back as sent, and the store is inside the table exactly for the identifiers 0 to 9.
\<close>

lemma peerBranch_peerFrame:
  "peerBranch s e (peerFrame sid av) =
     (if 0 \<le> sid \<and> sid < 10 then
        Inr (s\<lparr>readings := (readings s)[nat sid := av],
               lastReceivedTime := millis_received e\<rparr>,
             [SerialOut (''Received packet: '' @ printed_data e @ [CHR 0x0A])])
      else Inl (OutOfBounds sid))"
proof -
  have d: "startsWith (peerFrame sid av) ESP_startBit" "endsWith (peerFrame sid av) ESP_endBit"
    using delimiters_between [of "String_int sid @ '','' @ String_int av"]
    by (simp_all add: peerFrame_def)
  show ?thesis
    unfolding peerBranch_def using d
    by (simp add: peerFrame_payload sscanf_String_int Let_def del: append_assoc)
qed

lemma String_int_length:
  assumes "- (2 ^ 31) \<le> i" "i < 2 ^ 31"
  shows "length (String_int i) \<le> 11"
proof -
  have "nat \<bar>i\<bar> < 10 ^ 10" using assms by simp
  then have "length (utoa (nat \<bar>i\<bar>)) \<le> 10"
    using utoa_length [of 10 "nat \<bar>i\<bar>"] by simp
  then show ?thesis by (auto simp: String_int_def abs_if)
qed

lemma String_int_no_zero: "CHR 0x00 \<notin> set (String_int i)"
proof -
  have "\<not> isdigit (CHR 0x00)" by (simp add: isdigit_def)
  then have "CHR 0x00 \<notin> set (utoa n)" for n using utoa_digits by blast
  then show ?thesis by (simp add: String_int_def)
qed

lemma packetString_peerFrame:
  assumes "- (2 ^ 31) \<le> sid" "sid < 2 ^ 31" "- (2 ^ 31) \<le> av" "av < 2 ^ 31"
  shows "packetString (peerFrame sid av) = Inr (peerFrame sid av)"
proof (rule packetString_short)
  show "length (peerFrame sid av) < 255"
    using String_int_length [OF assms(1,2)] String_int_length [OF assms(3,4)]
    by (simp add: peerFrame_def ESP_startBit_def ESP_endBit_def)
  show "CHR 0x00 \<notin> set (peerFrame sid av)"
    using String_int_no_zero by (simp add: peerFrame_def ESP_startBit_def ESP_endBit_def)
qed

lemma peerFrame_nonempty: "peerFrame sid av \<noteq> []"
  by (simp add: peerFrame_def ESP_startBit_def)

lemma resetBranch_peerFrame: "resetBranch s (peerFrame sid av) = (s, [])"
  by (simp add: resetBranch_def peerFrame_def frame_defs)

lemma peerFrame_3_512: "peerFrame 3 512 = ''~~~3,512---''"
  by code_simp

text \<open>
  Claim C8. For every identifier from 0 to 9 and every reading in the range of
  \<open>int\<close>, the frame the sender builds (start delimiter, the two decimal numbers
  separated by a comma, end delimiter) parses at the receiver to exactly that identifier
  and that reading, and the receive block stores the reading at the identifier's index
  and stamps the receipt. The serial line of the receiver is the prefix and whatever
  line 180 prints for the \<open>String\<close> object; the round trip does not depend on it.
  The witness is the pair (3, 512), whose frame is \<open>~~~3,512---\<close>.
\<close>

theorem peer_frame_round_trip:
  assumes "0 \<le> sid" "sid < 10" "- (2 ^ 31) \<le> av" "av < 2 ^ 31"
  shows "sscanf_d_comma_d (substring (peerFrame sid av) (length ESP_startBit)
                             (length (peerFrame sid av) - length ESP_endBit)) = [sid, av]
       \<and> receivePhase s (e\<lparr>packet := Some (peerFrame sid av)\<rparr>) =
           Inr (s\<lparr>readings := (readings s)[nat sid := av],
                  lastReceivedTime := millis_received e\<rparr>,
                [SerialOut (''Received packet: '' @ printed_data e @ [CHR 0x0A])])"
proof -
  have p: "packetString (peerFrame sid av) = Inr (peerFrame sid av)"
    using assms by (intro packetString_peerFrame) simp_all
  have "receivePhase s (e\<lparr>packet := Some (peerFrame sid av)\<rparr>) =
           Inr (s\<lparr>readings := (readings s)[nat sid := av],
                  lastReceivedTime := millis_received e\<rparr>,
                [SerialOut (''Received packet: '' @ printed_data e @ [CHR 0x0A])])"
    using assms(1,2)
    by (simp add: receivePhase_def p peerFrame_nonempty peerBranch_peerFrame
        resetBranch_peerFrame)
  then show ?thesis by (simp add: peerFrame_payload sscanf_String_int)
qed

theorem peer_frame_round_trip_witness:
  "peerFrame 3 512 = ''~~~3,512---''
   \<and> sscanf_d_comma_d (substring (peerFrame 3 512) (length ESP_startBit)
                         (length (peerFrame 3 512) - length ESP_endBit)) = [3, 512]
   \<and> receivePhase example_node (example_env\<lparr>packet := Some (peerFrame 3 512)\<rparr>) =
       Inr (example_node\<lparr>readings := [- 1, 0, 0, 512, 0, 0, 0, 0, 0, 0],
                         lastReceivedTime := 1000\<rparr>,
            [SerialOut (''Received packet: 3,512'' @ [CHR 0x0A])])"
proof -
  have s: "String_int 3 = ''3''" "String_int 512 = ''512''" by code_simp+
  have r: "(readings example_node)[nat 3 := 512] = [- 1, 0, 0, 512, 0, 0, 0, 0, 0, 0]"
    "millis_received example_env = 1000" "printed_data example_env = ''3,512''"
    by (simp_all add: example_defs)
  have "(0::int) \<le> 3" "(3::int) < 10" "- (2 ^ 31) \<le> (512::int)" "(512::int) < 2 ^ 31"
    by simp_all
  from peer_frame_round_trip [OF this, of example_node example_env]
  show ?thesis
    unfolding r s by (simp add: peerFrame_3_512)
qed

section \<open>The silence timer\<close>

text \<open>
  Claim C3 says that an iteration that processes a peer frame then samples, broadcasts and
  elects. The node of the example receives the frame of node 3 at 1000 ms and reaches the
  silence check in the same millisecond: the table and \<open>lastReceivedTime\<close> are
  updated, nothing is sampled (\<open>analogValue\<close> stays 0 although the sensor reads 300)
  and nothing is sent.
\<close>

theorem peer_frame_suppresses_cycle_counterexample:
  "peerFrameIn example_env
   \<and> loop example_node example_env =
       Inr (example_node\<lparr>readings := [- 1, 0, 0, 512, 0, 0, 0, 0, 0, 0],
                         lastReceivedTime := 1000\<rparr>,
            [SerialOut (''Received packet: 3,512'' @ [CHR 0x0A])])"
  by (simp add: peerFrameIn_def loop_def flashPhase_def ledIndicatorFlash_def ledMasterFlash_def
      ledInterval_def receivePhase_def packetString_def peerBranch_def resetBranch_def
      broadcastPhase_def frame_defs sscanf_d_comma_d_def scan_int_def scan_sign_def
      isspace_def isdigit_def Let_def example_defs silentTime_def LOW_def)

text \<open>
  Claim C3, as amended. The cycle has one trigger, the test of line 203: an iteration
  runs the cycle if and only if more than \<open>silentTime\<close> = 200 ms lie between the
  silence check and the time stamp \<open>lastReceivedTime\<close>, which is the time of the last
  processed peer frame or of the last broadcast, whichever is later. An iteration that
  runs the cycle samples the sensor, broadcasts the frame of that sample, recomputes
  \<open>isMaster\<close> from the table and sets the time stamp to the time of the broadcast. An
  iteration that does not run it sends nothing, keeps \<open>analogValue\<close>, and leaves the
  time stamp at the receipt of this iteration's peer frame, or where it was. Processing
  a peer frame therefore postpones the cycle: when the check follows within 200 ms, the
  iteration sends nothing and leaves \<open>analogValue\<close> and \<open>isMaster\<close> as they were. In
  the next iteration (without a peer frame of its own) the silence is counted from the
  broadcast if the cycle ran, and from the receipt or the earlier stamp otherwise.
\<close>

theorem cycle_runs_only_after_silence:
  assumes "loop s e = Inr (s', out)"
  shows "((\<exists>m. UdpBroadcast m \<in> set out) \<longleftrightarrow>
            silentTime < millis_check e
               - (if peerFrameIn e then millis_received e else lastReceivedTime s))
         \<and> (peerFrameIn e \<and> millis_check e - millis_received e \<le> silentTime \<longrightarrow>
              (\<forall>m. UdpBroadcast m \<notin> set out)
              \<and> analogValue s' = analogValue s \<and> isMaster s' = isMaster s)
         \<and> (silentTime < millis_check e
               - (if peerFrameIn e then millis_received e else lastReceivedTime s) \<longrightarrow>
              UdpBroadcast (peerFrame (swarmID s) (analogRead e)) \<in> set out
              \<and> analogValue s' = analogRead e
              \<and> isMaster s' = determineMaster (readings s') (swarmID s) (analogRead e) 0
              \<and> lastReceivedTime s' = millis_broadcast e)
         \<and> (\<not> silentTime < millis_check e
               - (if peerFrameIn e then millis_received e else lastReceivedTime s) \<longrightarrow>
              (\<forall>m. UdpBroadcast m \<notin> set out)
              \<and> analogValue s' = analogValue s
              \<and> lastReceivedTime s' =
                  (if peerFrameIn e then millis_received e else lastReceivedTime s))
         \<and> (\<forall>e2 s2 out2. loop s' e2 = Inr (s2, out2) \<and> \<not> peerFrameIn e2 \<longrightarrow>
              ((\<exists>m. UdpBroadcast m \<in> set out2) \<longleftrightarrow>
                 silentTime < millis_check e2
                    - (if silentTime < millis_check e
                            - (if peerFrameIn e then millis_received e
                               else lastReceivedTime s)
                       then millis_broadcast e
                       else if peerFrameIn e then millis_received e
                       else lastReceivedTime s)))"
proof -
  let ?stamp = "if peerFrameIn e then millis_received e else lastReceivedTime s"
  have runs: "(\<exists>m. UdpBroadcast m \<in> set out') \<longleftrightarrow>
            silentTime < millis_check e'
               - (if peerFrameIn e' then millis_received e' else lastReceivedTime t)"
    and time: "lastReceivedTime t' =
            (if silentTime < millis_check e'
                   - (if peerFrameIn e' then millis_received e' else lastReceivedTime t)
             then millis_broadcast e'
             else if peerFrameIn e' then millis_received e' else lastReceivedTime t)"
    and cycle: "silentTime < millis_check e'
               - (if peerFrameIn e' then millis_received e' else lastReceivedTime t) \<Longrightarrow>
              UdpBroadcast (peerFrame (swarmID t) (analogRead e')) \<in> set out'
              \<and> analogValue t' = analogRead e'
              \<and> isMaster t' = determineMaster (readings t') (swarmID t) (analogRead e') 0"
    and idle: "\<not> silentTime < millis_check e'
               - (if peerFrameIn e' then millis_received e' else lastReceivedTime t) \<Longrightarrow>
              analogValue t' = analogValue t \<and> (peerFrameIn e' \<longrightarrow> isMaster t' = isMaster t)"
    if run: "loop t e' = Inr (t', out')" for t e' t' out'
  proof -
    obtain s1 out1 where f: "flashPhase t e' = (s1, out1)" by (cases "flashPhase t e'")
    obtain s2 out2 where r: "receivePhase s1 e' = Inr (s2, out2)"
      using run f by (auto simp: loop_def split: sum.splits)
    obtain s3 out3 where b: "broadcastPhase s2 e' = (s3, out3)"
      by (cases "broadcastPhase s2 e'")
    have l: "t' = s3" "out' = out1 @ out2 @ out3"
      using run f r b by (auto simp: loop_def)
    have t: "lastReceivedTime s2 =
               (if peerFrameIn e' then millis_received e' else lastReceivedTime t)"
      using receivePhase_cases(3) [OF r] flashPhase_fields(2) [OF f] by simp
    have id: "swarmID s2 = swarmID t"
      using receivePhase_swarmID [OF r] flashPhase_fields(5) [OF f] by simp
    have av: "analogValue s2 = analogValue t"
      using receivePhase_cases(2) [OF r] flashPhase_fields(4) [OF f] by simp
    have u: "(\<exists>m. UdpBroadcast m \<in> set out') \<longleftrightarrow> (\<exists>m. UdpBroadcast m \<in> set out3)"
      using l(2) flashPhase_out(1) [OF f] receivePhase_cases(1) [OF r] by auto
    show "(\<exists>m. UdpBroadcast m \<in> set out') \<longleftrightarrow>
            silentTime < millis_check e'
               - (if peerFrameIn e' then millis_received e' else lastReceivedTime t)"
      using u broadcastPhase_runs [OF b] t by simp
    show "lastReceivedTime t' =
            (if silentTime < millis_check e'
                   - (if peerFrameIn e' then millis_received e' else lastReceivedTime t)
             then millis_broadcast e'
             else if peerFrameIn e' then millis_received e' else lastReceivedTime t)"
    proof (cases "silentTime < millis_check e' - lastReceivedTime s2")
      case True
      then show ?thesis using broadcastPhase_cycle(4) [OF b True] l(1) t by simp
    next
      case False
      then show ?thesis using broadcastPhase_idle [OF False] b l(1) t by simp
    qed
    show "UdpBroadcast (peerFrame (swarmID t) (analogRead e')) \<in> set out'
              \<and> analogValue t' = analogRead e'
              \<and> isMaster t' = determineMaster (readings t') (swarmID t) (analogRead e') 0"
      if "silentTime < millis_check e'
               - (if peerFrameIn e' then millis_received e' else lastReceivedTime t)"
    proof -
      have due: "silentTime < millis_check e' - lastReceivedTime s2" using that t by simp
      have "readings s3 = readings s2" using broadcastPhase_readings [OF b] .
      then show ?thesis
        using broadcastPhase_cycle(1,2,3) [OF b due] l id by simp
    qed
    show "analogValue t' = analogValue t \<and> (peerFrameIn e' \<longrightarrow> isMaster t' = isMaster t)"
      if "\<not> silentTime < millis_check e'
               - (if peerFrameIn e' then millis_received e' else lastReceivedTime t)"
    proof -
      have "\<not> silentTime < millis_check e' - lastReceivedTime s2" using that t by simp
      then have "s3 = s2" using broadcastPhase_idle b by simp
      moreover have "isMaster s2 = isMaster t" if "peerFrameIn e'"
        using receivePhase_cases(4) [OF r that] flashPhase_fields(3) [OF f] by simp
      ultimately show ?thesis using av l(1) by simp
    qed
  qed
  have first: "(\<exists>m. UdpBroadcast m \<in> set out) \<longleftrightarrow> silentTime < millis_check e - ?stamp"
    using runs [OF assms] .
  have second: "(\<forall>m. UdpBroadcast m \<notin> set out)
              \<and> analogValue s' = analogValue s \<and> isMaster s' = isMaster s"
    if p: "peerFrameIn e" and q: "millis_check e - millis_received e \<le> silentTime"
  proof -
    have "\<not> silentTime < millis_check e - ?stamp" using p q by simp
    then show ?thesis using idle [OF assms] first p by simp
  qed
  have third: "UdpBroadcast (peerFrame (swarmID s) (analogRead e)) \<in> set out
              \<and> analogValue s' = analogRead e
              \<and> isMaster s' = determineMaster (readings s') (swarmID s) (analogRead e) 0
              \<and> lastReceivedTime s' = millis_broadcast e"
    if "silentTime < millis_check e - ?stamp"
    using cycle [OF assms that] time [OF assms] that by simp
  have fourth: "(\<forall>m. UdpBroadcast m \<notin> set out)
              \<and> analogValue s' = analogValue s
              \<and> lastReceivedTime s' = ?stamp"
    if "\<not> silentTime < millis_check e - ?stamp"
    using idle [OF assms that] time [OF assms] first that by simp
  have fifth: "(\<exists>m. UdpBroadcast m \<in> set out2) \<longleftrightarrow>
                 silentTime < millis_check e2
                    - (if silentTime < millis_check e - ?stamp then millis_broadcast e
                       else ?stamp)"
    if "loop s' e2 = Inr (s2, out2)" "\<not> peerFrameIn e2" for e2 s2 out2
    using runs [OF that(1)] that(2) time [OF assms] by simp
  from first second third fourth fifth show ?thesis by (intro conjI) blast+
qed

lemma loop_example:
  "loop example_node example_env =
       Inr (example_node\<lparr>readings := [- 1, 0, 0, 512, 0, 0, 0, 0, 0, 0],
                         lastReceivedTime := 1000\<rparr>,
            [SerialOut (''Received packet: 3,512'' @ [CHR 0x0A])])"
  by (simp add: loop_def flashPhase_def ledIndicatorFlash_def ledMasterFlash_def
      ledInterval_def receivePhase_def packetString_def peerBranch_def resetBranch_def
      broadcastPhase_def frame_defs sscanf_d_comma_d_def scan_int_def scan_sign_def
      isspace_def isdigit_def Let_def example_defs silentTime_def LOW_def)

text \<open>
  The iteration of the counterexample (peer frame at 1000 ms, check in the same
  millisecond) does not run the cycle and leaves the stamp at the receipt. Node 3,
  silent since 0 ms, runs it at 1300 ms: it samples 512, sends its frame, stays master
  and stamps the broadcast; an iteration 100 ms after that broadcast sends nothing.
\<close>

theorem cycle_runs_only_after_silence_witness:
  "peerFrameIn example_env
   \<and> millis_check example_env - millis_received example_env \<le> silentTime
   \<and> (\<exists>s' out. loop example_node example_env = Inr (s', out)
        \<and> (\<forall>m. UdpBroadcast m \<notin> set out)
        \<and> analogValue s' = analogValue example_node \<and> isMaster s' = isMaster example_node
        \<and> lastReceivedTime s' = millis_received example_env)
   \<and> \<not> peerFrameIn env_a
   \<and> silentTime < millis_check env_a - lastReceivedTime node_a
   \<and> (\<exists>s' out. loop node_a (env_a\<lparr>millis_broadcast := 1301\<rparr>) = Inr (s', out)
        \<and> UdpBroadcast ''~~~3,512---'' \<in> set out
        \<and> analogValue s' = 512 \<and> isMaster s' \<and> lastReceivedTime s' = 1301
        \<and> (\<exists>s2 out2. loop s' (env_a\<lparr>millis_check := 1401\<rparr>) = Inr (s2, out2)
              \<and> (\<forall>m. UdpBroadcast m \<notin> set out2)))"
proof -
  let ?e = "env_a\<lparr>millis_broadcast := 1301\<rparr>"
  let ?e2 = "env_a\<lparr>millis_check := 1401\<rparr>"
  have p: "peerFrameIn example_env"
    by (simp add: peerFrameIn_def packetString_def frame_defs example_defs)
  have q: "millis_check example_env - millis_received example_env \<le> silentTime"
    by (simp add: example_defs)
  have n: "\<not> peerFrameIn env_a" "\<not> peerFrameIn ?e" "\<not> peerFrameIn ?e2"
    by (simp_all add: peerFrameIn_def example_defs)
  have t: "silentTime < millis_check env_a - lastReceivedTime node_a"
    "silentTime < millis_check ?e - lastReceivedTime node_a"
    by (simp_all add: example_defs silentTime_def)
  have vals: "analogRead ?e = 512" "millis_broadcast ?e = 1301" "swarmID node_a = 3"
    "millis_check ?e2 = 1401" "readings node_a = [- 1, 0, 0, 0, 0, 100, 0, 0, 0, 0]"
    by (simp_all add: example_defs)
  have frame: "peerFrame 3 512 = ''~~~3,512---''" by code_simp
  have master: "determineMaster [- 1, 0, 0, 0, 0, 100, 0, 0, 0, 0] 3 512 0" by code_simp
  obtain s' out where r: "loop node_a ?e = Inr (s', out)"
    using loop_idle_returns [of ?e node_a] by (auto simp: example_defs)
  have tbl: "readings s' = readings node_a"
    using loop_readings(2) [OF r n(2)] .
  note c = cycle_runs_only_after_silence [OF r]
  have ran: "UdpBroadcast ''~~~3,512---'' \<in> set out
        \<and> analogValue s' = 512 \<and> isMaster s' \<and> lastReceivedTime s' = 1301"
    using c n(2) t(2) vals tbl frame master by simp
  obtain s2 out2 where r2: "loop s' ?e2 = Inr (s2, out2)"
    using loop_idle_returns [of ?e2 s'] by (auto simp: example_defs)
  have "\<forall>m. UdpBroadcast m \<notin> set out2"
  proof -
    have "(\<exists>m. UdpBroadcast m \<in> set out2) \<longleftrightarrow> silentTime < millis_check ?e2 - millis_broadcast ?e"
      using c r2 n(2,3) t(2) by simp
    then show ?thesis by (simp add: vals silentTime_def)
  qed
  with ran r r2 have 2: "\<exists>s' out. loop node_a ?e = Inr (s', out)
        \<and> UdpBroadcast ''~~~3,512---'' \<in> set out
        \<and> analogValue s' = 512 \<and> isMaster s' \<and> lastReceivedTime s' = 1301
        \<and> (\<exists>s2 out2. loop s' ?e2 = Inr (s2, out2) \<and> (\<forall>m. UdpBroadcast m \<notin> set out2))"
    by blast
  have 1: "\<exists>s' out. loop example_node example_env = Inr (s', out)
        \<and> (\<forall>m. UdpBroadcast m \<notin> set out)
        \<and> analogValue s' = analogValue example_node \<and> isMaster s' = isMaster example_node
        \<and> lastReceivedTime s' = millis_received example_env"
    using cycle_runs_only_after_silence [OF loop_example] p q loop_example by simp
  from p q n(1) t(1) 1 2 show ?thesis by blast
qed

section \<open>Reset\<close>

lemma peerBranch_reset:
  "peerBranch s e ''+++RESET_REQUESTED***'' = Inr (s, [])"
  by (simp add: peerBranch_def frame_defs)

lemma resetBranch_reset:
  "resetBranch s ''+++RESET_REQUESTED***'' =
     (s\<lparr>isMaster := True\<rparr>,
      [DigitalWrite LED_INDICATOR HIGH, DigitalWrite LED_MASTER HIGH,
       SerialOut (''RESET REQUESTED BY RPI5'' @ [CHR 0x0D, CHR 0x0A]), Delay 3000])"
  by (simp add: resetBranch_def frame_defs)

lemma receivePhase_reset:
  assumes "packet e = Some payload" "packetString payload = Inr ''+++RESET_REQUESTED***''"
  shows "receivePhase s e =
     Inr (s\<lparr>isMaster := True\<rparr>,
      [DigitalWrite LED_INDICATOR HIGH, DigitalWrite LED_MASTER HIGH,
       SerialOut (''RESET REQUESTED BY RPI5'' @ [CHR 0x0D, CHR 0x0A]), Delay 3000])"
proof -
  have "payload \<noteq> []" using assms(2) by (auto simp: packetString_def)
  then show ?thesis
    using assms by (simp add: receivePhase_def peerBranch_reset resetBranch_reset)
qed

lemma loop_reset:
  assumes "packet e = Some payload" "packetString payload = Inr ''+++RESET_REQUESTED***''"
    and "flashPhase s e = (s1, out1)"
    and "broadcastPhase (s1\<lparr>isMaster := True\<rparr>) e = (s3, out3)"
  shows "loop s e = Inr (s3, out1 @ [DigitalWrite LED_INDICATOR HIGH, DigitalWrite LED_MASTER HIGH,
       SerialOut (''RESET REQUESTED BY RPI5'' @ [CHR 0x0D, CHR 0x0A]), Delay 3000] @ out3)"
  using assms(3,4) by (simp add: loop_def receivePhase_reset [OF assms(1,2)])

lemma reset_env_packet:
  "packet reset_env = Some ''+++RESET_REQUESTED***''"
  "packetString ''+++RESET_REQUESTED***'' = Inr ''+++RESET_REQUESTED***''"
  by (simp_all add: reset_env_def example_defs packetString_def)

text \<open>
  Claim C4. Whatever the state, an iteration that receives the reset frame sets
  \<open>isMaster\<close> to true and then holds for 3000 ms (\<open>Delay 3000\<close>): nothing is
  broadcast in the iteration before the hold, the hold is the only delay, and the cycle
  block runs after it, from the state with \<open>isMaster\<close> true.
\<close>

theorem reset_forces_master_and_hold:
  assumes "packet e = Some payload" "packetString payload = Inr ''+++RESET_REQUESTED***''"
  shows "\<exists>s1 out1 s3 out3.
           flashPhase s e = (s1, out1)
         \<and> receivePhase s1 e = Inr (s1\<lparr>isMaster := True\<rparr>,
                [DigitalWrite LED_INDICATOR HIGH, DigitalWrite LED_MASTER HIGH,
                 SerialOut (''RESET REQUESTED BY RPI5'' @ [CHR 0x0D, CHR 0x0A]), Delay 3000])
         \<and> broadcastPhase (s1\<lparr>isMaster := True\<rparr>) e = (s3, out3)
         \<and> loop s e = Inr (s3, out1 @ [DigitalWrite LED_INDICATOR HIGH, DigitalWrite LED_MASTER HIGH,
                 SerialOut (''RESET REQUESTED BY RPI5'' @ [CHR 0x0D, CHR 0x0A]), Delay 3000] @ out3)
         \<and> (\<forall>m. UdpBroadcast m \<notin> set out1)
         \<and> (\<forall>n. Delay n \<notin> set out1 \<and> Delay n \<notin> set out3)"
proof -
  obtain s1 out1 where f: "flashPhase s e = (s1, out1)" by (cases "flashPhase s e")
  obtain s3 out3 where b: "broadcastPhase (s1\<lparr>isMaster := True\<rparr>) e = (s3, out3)"
    by (cases "broadcastPhase (s1\<lparr>isMaster := True\<rparr>) e")
  show ?thesis
    using f b loop_reset [OF assms f b] receivePhase_reset [OF assms, of s1]
      flashPhase_out [OF f] broadcastPhase_no_delay [OF b]
    by blast
qed

theorem reset_forces_master_and_hold_witness:
  "packet reset_env = Some ''+++RESET_REQUESTED***''
   \<and> packetString ''+++RESET_REQUESTED***'' = Inr ''+++RESET_REQUESTED***''
   \<and> \<not> isMaster (node_b\<lparr>isMaster := False\<rparr>)
   \<and> (\<exists>s1 out1 s3 out3.
           flashPhase (node_b\<lparr>isMaster := False\<rparr>) reset_env = (s1, out1)
         \<and> receivePhase s1 reset_env = Inr (s1\<lparr>isMaster := True\<rparr>,
                [DigitalWrite LED_INDICATOR HIGH, DigitalWrite LED_MASTER HIGH,
                 SerialOut (''RESET REQUESTED BY RPI5'' @ [CHR 0x0D, CHR 0x0A]), Delay 3000])
         \<and> broadcastPhase (s1\<lparr>isMaster := True\<rparr>) reset_env = (s3, out3)
         \<and> loop (node_b\<lparr>isMaster := False\<rparr>) reset_env =
             Inr (s3, out1 @ [DigitalWrite LED_INDICATOR HIGH, DigitalWrite LED_MASTER HIGH,
                 SerialOut (''RESET REQUESTED BY RPI5'' @ [CHR 0x0D, CHR 0x0A]), Delay 3000] @ out3)
         \<and> (\<forall>m. UdpBroadcast m \<notin> set out1)
         \<and> (\<forall>n. Delay n \<notin> set out1 \<and> Delay n \<notin> set out3))"
  using reset_forces_master_and_hold [OF reset_env_packet, of "node_b\<lparr>isMaster := False\<rparr>"]
    reset_env_packet
  by simp

text \<open>
  Claim C5. The receive block turns the state \<open>s\<close> into \<open>s\<close> with \<open>isMaster\<close> set
  and nothing else changed, so that every entry of the table is as before; the table is
  also the same at the end of the whole iteration.
\<close>

theorem reset_keeps_readings:
  assumes "packet e = Some payload" "packetString payload = Inr ''+++RESET_REQUESTED***''"
  shows "receivePhase s e =
           Inr (s\<lparr>isMaster := True\<rparr>,
                [DigitalWrite LED_INDICATOR HIGH, DigitalWrite LED_MASTER HIGH,
                 SerialOut (''RESET REQUESTED BY RPI5'' @ [CHR 0x0D, CHR 0x0A]), Delay 3000])
         \<and> readings (s\<lparr>isMaster := True\<rparr>) = readings s
         \<and> (\<exists>s' out. loop s e = Inr (s', out) \<and> readings s' = readings s)"
proof -
  obtain s1 out1 where f: "flashPhase s e = (s1, out1)" by (cases "flashPhase s e")
  obtain s3 out3 where b: "broadcastPhase (s1\<lparr>isMaster := True\<rparr>) e = (s3, out3)"
    by (cases "broadcastPhase (s1\<lparr>isMaster := True\<rparr>) e")
  have "readings s3 = readings s"
    using broadcastPhase_readings [OF b] flashPhase_fields(1) [OF f] by simp
  with loop_reset [OF assms f b] receivePhase_reset [OF assms] show ?thesis by simp
qed

theorem reset_keeps_readings_witness:
  "packet reset_env = Some ''+++RESET_REQUESTED***''
   \<and> packetString ''+++RESET_REQUESTED***'' = Inr ''+++RESET_REQUESTED***''
   \<and> receivePhase node_b reset_env =
           Inr (node_b\<lparr>isMaster := True\<rparr>,
                [DigitalWrite LED_INDICATOR HIGH, DigitalWrite LED_MASTER HIGH,
                 SerialOut (''RESET REQUESTED BY RPI5'' @ [CHR 0x0D, CHR 0x0A]), Delay 3000])
   \<and> (\<exists>s' out. loop node_b reset_env = Inr (s', out)
         \<and> readings s' = [- 1, 0, 0, 512, 0, 0, 0, 0, 0, 0])"
proof -
  have "readings node_b = [- 1, 0, 0, 512, 0, 0, 0, 0, 0, 0]"
    by (simp add: example_defs)
  with reset_keeps_readings [OF reset_env_packet, of node_b] reset_env_packet
  show ?thesis by simp
qed

end
